theory Spec2Isabelle
  imports Main "HOL-Library.Word"
begin

unbundle bit_operations_syntax

section \<open>The image header and the flash it lives in\<close>

text \<open>
  The switcher is written for 32-bit ARM microcontrollers (the example places the two
  headers at \<open>0x0007FFF8\<close> and \<open>0x000FFFF8\<close>), so a pointer and a \<open>size_t\<close> are
  32-bit words. \<open>NULL\<close> is the address 0.
\<close>

type_synonym addr = "32 word"

definition NULL :: addr where
  "NULL = 0"

text \<open>
  \<open>image_t\<close> of \<open>switcher.h\<close>, field by field with the widths of its bit-fields. The
  field \<open>length\<close> is named \<open>length_f\<close> here. A one-bit \<open>bool\<close> field is a \<open>bool\<close>:
  \<open>True\<close> is the stored bit 1.
\<close>

record image_t =
  checksum :: "24 word"
  version :: "8 word"
  length_f :: "24 word"
  nValid :: bool
  nInvalid :: bool
  nSuccess :: bool
  nFailure :: bool
  nAttempts :: "4 word"

text \<open>
  The functions of \<open>switcher.c\<close> work on pointers to headers in flash, so the state they
  run in is the store of headers, by address. \<open>switcher_choose(a, a)\<close> passes one header
  twice; in the store both arguments then name the same record. Two different addresses
  name two different headers (the headers of the example are 512 KiB apart).

  \<open>crc_24\<close> is declared in \<open>crc.h\<close> but its body is not part of the sources. It is a
  parameter of every function that calls it: a function of the pointer and the byte count
  it is given, reading the image and its checksum, bytes that no function of the switcher
  writes. The field \<open>crc_log\<close> is not in the C code: it
  records each call of \<open>crc_24\<close> with its two arguments, in order, so that
  statements about how often, and over which bytes, the checksum is computed can be made.
\<close>

type_synonym crc_fn = "addr \<Rightarrow> 32 word \<Rightarrow> 32 word"

record machine =
  flash :: "addr \<Rightarrow> image_t"
  crc_log :: "(addr \<times> 32 word) list"

section \<open>The functions of switcher.c\<close>

text \<open>\<open>image->nSuccess = 0\<close>\<close>

definition switcher_set_success :: "addr \<Rightarrow> machine \<Rightarrow> machine" where
  "switcher_set_success img m =
     m\<lparr>flash := (flash m)(img := (flash m img)\<lparr>nSuccess := False\<rparr>)\<rparr>"

text \<open>\<open>image->nFailure = 0\<close>\<close>

definition switcher_set_failure :: "addr \<Rightarrow> machine \<Rightarrow> machine" where
  "switcher_set_failure img m =
     m\<lparr>flash := (flash m)(img := (flash m img)\<lparr>nFailure := False\<rparr>)\<rparr>"

text \<open>
  \<open>_image_start\<close>: \<open>(uint8_t *)image - image->length\<close>. The 24-bit length is widened to
  the pointer's width; the subtraction is the one of 32-bit addresses.
\<close>

definition image_start :: "addr \<Rightarrow> machine \<Rightarrow> addr" where
  "image_start img m = img - ucast (length_f (flash m img))"

text \<open>
  \<open>_checksum_valid\<close>: \<open>!crc_24(_image_start(image), image->length + 3)\<close>. The sum is
  computed in \<open>int\<close> from a 24-bit value and then passed as a 32-bit \<open>size_t\<close>.
\<close>

definition checksum_valid :: "crc_fn \<Rightarrow> addr \<Rightarrow> machine \<Rightarrow> bool \<times> machine" where
  "checksum_valid crc_24 img m =
     (let data = image_start img m;
          data_len = ucast (length_f (flash m img)) + 3
      in (crc_24 data data_len = 0, m\<lparr>crc_log := crc_log m @ [(data, data_len)]\<rparr>))"

text \<open>
  \<open>_can_boot\<close>, branch by branch in the order of the source. The returned
  \<open>image->nAttempts\<close> is converted to \<open>bool\<close>: true when it is not zero.
\<close>

definition can_boot :: "crc_fn \<Rightarrow> addr \<Rightarrow> machine \<Rightarrow> bool \<times> machine" where
  "can_boot crc_24 img m =
     (if \<not> nFailure (flash m img) then (False, m)
      else if \<not> nSuccess (flash m img) then (True, m)
      else if nValid (flash m img) then
        (if nInvalid (flash m img) then (False, m)
         else
           (case checksum_valid crc_24 img m of
              (ok, m1) \<Rightarrow>
                if \<not> ok then
                  (False, m1\<lparr>flash := (flash m1)(img := (flash m1 img)\<lparr>nInvalid := False\<rparr>)\<rparr>)
                else
                  (let m2 = m1\<lparr>flash := (flash m1)(img := (flash m1 img)\<lparr>nValid := False\<rparr>)\<rparr>
                   in (nAttempts (flash m2 img) \<noteq> 0, m2))))
      else (nAttempts (flash m img) \<noteq> 0, m))"

text \<open>
  \<open>switcher_choose\<close>: both candidates are tested, \<open>a\<close> first, and the four cases follow.
  \<open>a >= b\<close> compares the two pointers as unsigned addresses.
\<close>

definition switcher_choose :: "crc_fn \<Rightarrow> addr \<Rightarrow> addr \<Rightarrow> machine \<Rightarrow> addr \<times> machine" where
  "switcher_choose crc_24 a b m =
     (case can_boot crc_24 a m of
        (can_boot_a, m1) \<Rightarrow>
          (case can_boot crc_24 b m1 of
             (can_boot_b, m2) \<Rightarrow>
               (if \<not> can_boot_a \<and> \<not> can_boot_b then (NULL, m2)
                else if can_boot_a \<and> \<not> can_boot_b then (a, m2)
                else if \<not> can_boot_a \<and> can_boot_b then (b, m2)
                else (if a \<ge> b then a else b, m2))))"

text \<open>
  \<open>image->nAttempts = (uint8_t)(image->nAttempts << 1)\<close>: the 4-bit field is promoted to
  \<open>int\<close>, shifted, cut to 8 bits by the cast and to 4 bits by the store into the field.
\<close>

definition shift_attempts :: "4 word \<Rightarrow> 4 word" where
  "shift_attempts n = ucast (ucast (push_bit 1 (ucast n :: 32 word)) :: 8 word)"

text \<open>
  \<open>switcher_boot\<close> returns to its caller when the image is \<open>NULL\<close>. Otherwise, after the
  store to \<open>nAttempts\<close>, it runs the two instructions \<open>mov sp, %0\<close> and \<open>mov ip, %1\<close> with
  the operands 0 and \<open>_image_start(image)\<close>. On ARM \<open>sp\<close> is the stack pointer r13 and
  \<open>ip\<close> is the scratch register r12; the program counter is \<open>pc\<close>, r15, and neither
  instruction writes it. So no branch is executed: with the two registers loaded,
  control runs on into \<open>__builtin_unreachable()\<close>, after which the source defines no
  behaviour. The two ways out are the two constructors of \<open>outcome\<close>; \<open>Unreachable\<close>
  carries the values the two registers hold at that point.
\<close>

datatype outcome = Returned | Unreachable (sp: "32 word") (r12: addr)

definition switcher_boot :: "addr \<Rightarrow> machine \<Rightarrow> outcome \<times> machine" where
  "switcher_boot img m =
     (if img = NULL then (Returned, m)
      else
        (let m1 = (if nSuccess (flash m img)
                   then m\<lparr>flash := (flash m)(img :=
                          (flash m img)\<lparr>nAttempts := shift_attempts (nAttempts (flash m img))\<rparr>)\<rparr>
                   else m)
         in (Unreachable 0 (image_start img m1), m1)))"

section \<open>The example boot loader and sequences of calls\<close>

text \<open>
  The example \<open>main\<close>: the two header addresses, and
  \<open>switcher_boot(switcher_choose(HEADER_A, HEADER_B))\<close>. When \<open>switcher_boot\<close> returns,
  \<open>main\<close> spins in \<open>while (true)\<close>: the outcome \<open>Returned\<close> of \<open>main\<close> stands for that.
  The other outcome of \<open>main\<close> is the one of \<open>switcher_boot\<close>.
\<close>

definition HEADER_ADDR_A :: addr where
  "HEADER_ADDR_A = 0x0007FFF8"

definition HEADER_ADDR_B :: addr where
  "HEADER_ADDR_B = 0x000FFFF8"

definition main :: "crc_fn \<Rightarrow> machine \<Rightarrow> outcome \<times> machine" where
  "main crc_24 m =
     (case switcher_choose crc_24 HEADER_ADDR_A HEADER_ADDR_B m of
        (img, m1) \<Rightarrow> switcher_boot img m1)"

text \<open>
  The four functions declared in \<open>switcher.h\<close> are all there is to call. A history of
  the flash is a list of such calls, run in order; the flash keeps what each call wrote
  (a call of \<open>switcher_boot\<close> that does not return ends one power cycle, the next call
  belongs to a later one).
\<close>

datatype call =
  Choose addr addr
  | Boot addr
  | Set_success addr
  | Set_failure addr

fun do_call :: "crc_fn \<Rightarrow> call \<Rightarrow> machine \<Rightarrow> machine" where
  "do_call crc_24 (Choose a b) m = snd (switcher_choose crc_24 a b m)"
| "do_call crc_24 (Boot img) m = snd (switcher_boot img m)"
| "do_call crc_24 (Set_success img) m = switcher_set_success img m"
| "do_call crc_24 (Set_failure img) m = switcher_set_failure img m"

fun run :: "crc_fn \<Rightarrow> call list \<Rightarrow> machine \<Rightarrow> machine" where
  "run crc_24 [] m = m"
| "run crc_24 (c # cs) m = run crc_24 cs (do_call crc_24 c m)"

text \<open>
  A header as it is flashed: "initialized with 1s except for the length, checksum, and
  version" (\<open>switcher.h\<close>).
\<close>

definition flashed :: "24 word \<Rightarrow> 8 word \<Rightarrow> 24 word \<Rightarrow> image_t" where
  "flashed c v l =
     \<lparr>checksum = c, version = v, length_f = l, nValid = True, nInvalid = True,
      nSuccess = True, nFailure = True, nAttempts = 15\<rparr>"

definition freshly_flashed :: "image_t \<Rightarrow> bool" where
  "freshly_flashed h \<longleftrightarrow>
     nValid h \<and> nInvalid h \<and> nSuccess h \<and> nFailure h \<and> nAttempts h = 15"

text \<open>
  Concrete inputs for the examples below: a flash with the header \<open>ha\<close> at
  \<open>HEADER_ADDR_A\<close> and \<open>hb\<close> at every other address, no checksum computed yet; and a
  \<open>crc_24\<close> that returns the remainder \<open>r\<close> whatever it is given (0: every image passes).
\<close>

definition two_images :: "image_t \<Rightarrow> image_t \<Rightarrow> machine" where
  "two_images ha hb =
     \<lparr>flash = (\<lambda>p. if p = HEADER_ADDR_A then ha else hb), crc_log = []\<rparr>"

definition crc_const :: "32 word \<Rightarrow> crc_fn" where
  "crc_const r data data_len = r"

section \<open>Relations between header states\<close>

text \<open>
  \<open>only_clears h h'\<close>: going from \<open>h\<close> to \<open>h'\<close> no latch is set again, every bit set in the
  attempts of \<open>h'\<close> was set in those of \<open>h\<close>, and the attempts have not grown as a number.
\<close>

definition only_clears :: "image_t \<Rightarrow> image_t \<Rightarrow> bool" where
  "only_clears h h' \<longleftrightarrow>
     (nValid h' \<longrightarrow> nValid h) \<and> (nInvalid h' \<longrightarrow> nInvalid h) \<and>
     (nSuccess h' \<longrightarrow> nSuccess h) \<and> (nFailure h' \<longrightarrow> nFailure h) \<and>
     nAttempts h' AND nAttempts h = nAttempts h' \<and> nAttempts h' \<le> nAttempts h"

text \<open>\<open>same_but_version h h'\<close>: the two headers agree on every field but \<open>version\<close>.\<close>

definition same_but_version :: "image_t \<Rightarrow> image_t \<Rightarrow> bool" where
  "same_but_version h h' \<longleftrightarrow>
     checksum h = checksum h' \<and> length_f h = length_f h' \<and>
     nValid h = nValid h' \<and> nInvalid h = nInvalid h' \<and>
     nSuccess h = nSuccess h' \<and> nFailure h = nFailure h' \<and>
     nAttempts h = nAttempts h'"

section \<open>What one call reads and writes\<close>

lemma shift_attempts_push_bit: "shift_attempts n = push_bit 1 n"
  unfolding shift_attempts_def
  apply (rule bit_word_eqI)
  apply (simp only: bit_simps)
  apply auto
  done

lemma clear_nInvalid_idem: "\<not> nInvalid h \<Longrightarrow> h\<lparr>nInvalid := False\<rparr> = h"
  by (cases h) simp

lemma can_boot_failed: "\<not> nFailure (flash m img) \<Longrightarrow> can_boot crc_24 img m = (False, m)"
  by (simp add: can_boot_def)

lemma can_boot_succeeded:
  "nFailure (flash m img) \<Longrightarrow> \<not> nSuccess (flash m img) \<Longrightarrow> can_boot crc_24 img m = (True, m)"
  by (simp add: can_boot_def)

lemma can_boot_validated:
  "nFailure (flash m img) \<Longrightarrow> nSuccess (flash m img) \<Longrightarrow> \<not> nValid (flash m img) \<Longrightarrow>
   can_boot crc_24 img m = (nAttempts (flash m img) \<noteq> 0, m)"
  by (simp add: can_boot_def)

lemma can_boot_fresh:
  "nFailure (flash m img) \<Longrightarrow> nSuccess (flash m img) \<Longrightarrow> nValid (flash m img) \<Longrightarrow> nInvalid (flash m img) \<Longrightarrow>
   can_boot crc_24 img m = (False, m)"
  by (simp add: can_boot_def)

lemma can_boot_check_fails:
  "nFailure (flash m img) \<Longrightarrow> nSuccess (flash m img) \<Longrightarrow> nValid (flash m img) \<Longrightarrow> \<not> nInvalid (flash m img) \<Longrightarrow>
   crc_24 (img - ucast (length_f (flash m img))) (ucast (length_f (flash m img)) + 3) \<noteq> 0 \<Longrightarrow>
   can_boot crc_24 img m =
     (False, m\<lparr>crc_log := crc_log m @ [(img - ucast (length_f (flash m img)), ucast (length_f (flash m img)) + 3)]\<rparr>)"
  by (simp add: can_boot_def checksum_valid_def image_start_def Let_def clear_nInvalid_idem)

lemma can_boot_check_passes:
  "nFailure (flash m img) \<Longrightarrow> nSuccess (flash m img) \<Longrightarrow> nValid (flash m img) \<Longrightarrow> \<not> nInvalid (flash m img) \<Longrightarrow>
   crc_24 (img - ucast (length_f (flash m img))) (ucast (length_f (flash m img)) + 3) = 0 \<Longrightarrow>
   can_boot crc_24 img m =
     (nAttempts (flash m img) \<noteq> 0,
      m\<lparr>flash := (flash m)(img := (flash m img)\<lparr>nValid := False\<rparr>),
        crc_log := crc_log m @ [(img - ucast (length_f (flash m img)), ucast (length_f (flash m img)) + 3)]\<rparr>)"
  by (simp add: can_boot_def checksum_valid_def image_start_def Let_def)


lemma can_boot_other:
  "q \<noteq> img \<Longrightarrow> flash (snd (can_boot crc_24 img m)) q = flash m q"
  by (simp add: can_boot_def checksum_valid_def Let_def)

lemma can_boot_kept:
  "checksum (flash (snd (can_boot crc_24 img m)) q) = checksum (flash m q) \<and>
   version (flash (snd (can_boot crc_24 img m)) q) = version (flash m q) \<and>
   length_f (flash (snd (can_boot crc_24 img m)) q) = length_f (flash m q) \<and>
   nSuccess (flash (snd (can_boot crc_24 img m)) q) = nSuccess (flash m q) \<and>
   nFailure (flash (snd (can_boot crc_24 img m)) q) = nFailure (flash m q) \<and>
   nAttempts (flash (snd (can_boot crc_24 img m)) q) = nAttempts (flash m q)"
  by (simp add: can_boot_def checksum_valid_def Let_def)

lemma can_boot_latches:
  "(nValid (flash (snd (can_boot crc_24 img m)) q) \<longrightarrow> nValid (flash m q)) \<and>
   (nInvalid (flash (snd (can_boot crc_24 img m)) q) \<longrightarrow> nInvalid (flash m q))"
  by (simp add: can_boot_def checksum_valid_def Let_def)

lemma boot_other:
  "q \<noteq> img \<Longrightarrow> flash (snd (switcher_boot img m)) q = flash m q"
  by (simp add: switcher_boot_def Let_def)

lemma boot_kept:
  "checksum (flash (snd (switcher_boot img m)) q) = checksum (flash m q) \<and>
   version (flash (snd (switcher_boot img m)) q) = version (flash m q) \<and>
   length_f (flash (snd (switcher_boot img m)) q) = length_f (flash m q) \<and>
   nValid (flash (snd (switcher_boot img m)) q) = nValid (flash m q) \<and>
   nInvalid (flash (snd (switcher_boot img m)) q) = nInvalid (flash m q) \<and>
   nSuccess (flash (snd (switcher_boot img m)) q) = nSuccess (flash m q) \<and>
   nFailure (flash (snd (switcher_boot img m)) q) = nFailure (flash m q)"
  by (simp add: switcher_boot_def Let_def)

lemma boot_attempts:
  "nAttempts (flash (snd (switcher_boot img m)) q) =
     (if q = img \<and> img \<noteq> NULL \<and> nSuccess (flash m img)
      then push_bit 1 (nAttempts (flash m q)) else nAttempts (flash m q))"
  by (simp add: switcher_boot_def Let_def shift_attempts_push_bit)

lemma choose_flash:
  "flash (snd (switcher_choose crc_24 a b m)) =
   flash (snd (can_boot crc_24 b (snd (can_boot crc_24 a m))))"
  by (simp add: switcher_choose_def split: prod.splits)

lemma choose_result:
  "fst (switcher_choose crc_24 a b m) =
     (let can_boot_a = fst (can_boot crc_24 a m);
          can_boot_b = fst (can_boot crc_24 b (snd (can_boot crc_24 a m)))
      in if \<not> can_boot_a \<and> \<not> can_boot_b then NULL
         else if can_boot_a \<and> \<not> can_boot_b then a
         else if \<not> can_boot_a \<and> can_boot_b then b
         else if b \<le> a then a else b)"
  by (simp add: switcher_choose_def Let_def split: prod.splits)


lemma flashed_sel:
  "checksum (flashed c v l) = c" "version (flashed c v l) = v" "length_f (flashed c v l) = l"
  "nValid (flashed c v l)" "nInvalid (flashed c v l)" "nSuccess (flashed c v l)"
  "nFailure (flashed c v l)" "nAttempts (flashed c v l) = 15"
  by (simp_all add: flashed_def)

lemma can_boot_same:
  assumes "same_but_version (flash m img) (flash m' img)"
  shows "fst (can_boot crc_24 img m) = fst (can_boot crc_24 img m') \<and>
         same_but_version (flash (snd (can_boot crc_24 img m)) img)
                          (flash (snd (can_boot crc_24 img m')) img)"
  using assms
  by (simp add: same_but_version_def can_boot_def checksum_valid_def image_start_def Let_def)

lemma can_boot_exhausted:
  "nSuccess (flash m img) \<Longrightarrow> nAttempts (flash m img) = 0 \<Longrightarrow> \<not> fst (can_boot crc_24 img m)"
  by (simp add: can_boot_def checksum_valid_def Let_def)

lemma choose_kept:
  "checksum (flash (snd (switcher_choose crc_24 a b m)) q) = checksum (flash m q) \<and>
   version (flash (snd (switcher_choose crc_24 a b m)) q) = version (flash m q) \<and>
   length_f (flash (snd (switcher_choose crc_24 a b m)) q) = length_f (flash m q) \<and>
   nSuccess (flash (snd (switcher_choose crc_24 a b m)) q) = nSuccess (flash m q) \<and>
   nFailure (flash (snd (switcher_choose crc_24 a b m)) q) = nFailure (flash m q) \<and>
   nAttempts (flash (snd (switcher_choose crc_24 a b m)) q) = nAttempts (flash m q)"
  by (simp add: choose_flash can_boot_kept)

lemma choose_latches:
  "(nValid (flash (snd (switcher_choose crc_24 a b m)) q) \<longrightarrow> nValid (flash m q)) \<and>
   (nInvalid (flash (snd (switcher_choose crc_24 a b m)) q) \<longrightarrow> nInvalid (flash m q))"
  using can_boot_latches [of crc_24 b "snd (can_boot crc_24 a m)" q]
    can_boot_latches [of crc_24 a m q]
  by (simp add: choose_flash)

lemma choose_other:
  "q \<noteq> a \<Longrightarrow> q \<noteq> b \<Longrightarrow> flash (snd (switcher_choose crc_24 a b m)) q = flash m q"
  by (simp add: choose_flash can_boot_other)

lemma choose_not_exhausted:
  assumes "img \<noteq> NULL" and "nSuccess (flash m img)" and "nAttempts (flash m img) = 0"
  shows "fst (switcher_choose crc_24 a b m) \<noteq> img"
proof -
  have a: "\<not> fst (can_boot crc_24 img m)"
    using assms by (simp add: can_boot_exhausted)
  have "\<not> fst (can_boot crc_24 img (snd (can_boot crc_24 a m)))"
    using assms by (intro can_boot_exhausted) (simp_all add: can_boot_kept)
  with a assms(1) show ?thesis
    by (auto simp add: choose_result Let_def)
qed

lemma do_call_nSuccess:
  "c \<noteq> Set_success img \<Longrightarrow> nSuccess (flash (do_call crc_24 c m) img) = nSuccess (flash m img)"
  by (cases c)
    (auto simp add: choose_kept boot_kept switcher_set_success_def switcher_set_failure_def)

lemma do_call_nAttempts:
  "nAttempts (flash (do_call crc_24 c m) img) =
     (if c = Boot img \<and> img \<noteq> NULL \<and> nSuccess (flash m img)
      then push_bit 1 (nAttempts (flash m img)) else nAttempts (flash m img))"
  by (cases c)
    (auto simp add: choose_kept boot_attempts switcher_set_success_def switcher_set_failure_def)

lemma run_without_success:
  assumes "img \<noteq> NULL" and "Set_success img \<notin> set cs" and "nSuccess (flash m img)"
  shows "nSuccess (flash (run crc_24 cs m) img) \<and>
         nAttempts (flash (run crc_24 cs m) img) =
           push_bit (count_list cs (Boot img)) (nAttempts (flash m img))"
  using assms
proof (induction cs arbitrary: m)
  case Nil
  then show ?case by simp
next
  case (Cons c cs)
  have s: "nSuccess (flash (do_call crc_24 c m) img)"
    using Cons.prems by (auto simp add: do_call_nSuccess)
  have "Set_success img \<notin> set cs"
    using Cons.prems by simp
  from Cons.IH [OF Cons.prems(1) this s] Cons.prems show ?case
    by (auto simp add: do_call_nAttempts)
qed


lemma example_addresses:
  "HEADER_ADDR_A \<noteq> HEADER_ADDR_B" "HEADER_ADDR_B \<noteq> HEADER_ADDR_A"
  "HEADER_ADDR_A \<noteq> NULL" "HEADER_ADDR_B \<noteq> NULL"
  "NULL \<noteq> HEADER_ADDR_A" "NULL \<noteq> HEADER_ADDR_B"
  "\<not> HEADER_ADDR_B \<le> HEADER_ADDR_A" "HEADER_ADDR_A \<le> HEADER_ADDR_B"
  by (simp_all add: HEADER_ADDR_A_def HEADER_ADDR_B_def NULL_def)

lemma two_images_sel:
  "flash (two_images ha hb) HEADER_ADDR_A = ha"
  "flash (two_images ha hb) HEADER_ADDR_B = hb"
  "flash (two_images ha hb) NULL = hb"
  "crc_log (two_images ha hb) = []"
  by (simp_all add: two_images_def example_addresses)

lemma shift_keeps_shape:
  "n \<in> {15, 14, 12, 8, 0} \<Longrightarrow> push_bit 1 n \<in> {15, 14, 12, 8, (0 :: 4 word)}"
  by auto

lemma shift_only_clears:
  "n \<in> {15, 14, 12, 8, (0 :: 4 word)} \<Longrightarrow> push_bit 1 n AND n = push_bit 1 n \<and> push_bit 1 n \<le> n"
  by auto

lemma do_call_shape:
  "nAttempts (flash m img) \<in> {15, 14, 12, 8, 0} \<Longrightarrow>
   nAttempts (flash (do_call crc_24 c m) img) \<in> {15, 14, 12, 8, 0}"
  using shift_keeps_shape [of "nAttempts (flash m img)"]
  by (simp add: do_call_nAttempts)

lemma run_shape:
  "nAttempts (flash m img) \<in> {15, 14, 12, 8, 0} \<Longrightarrow>
   nAttempts (flash (run crc_24 cs m) img) \<in> {15, 14, 12, 8, 0}"
proof (induction cs arbitrary: m)
  case Nil
  then show ?case by simp
next
  case (Cons c cs)
  from Cons.IH [OF do_call_shape [OF Cons.prems]] show ?case
    by simp
qed

lemma do_call_latches:
  "(nValid (flash (do_call crc_24 c m) q) \<longrightarrow> nValid (flash m q)) \<and>
   (nInvalid (flash (do_call crc_24 c m) q) \<longrightarrow> nInvalid (flash m q)) \<and>
   (nSuccess (flash (do_call crc_24 c m) q) \<longrightarrow> nSuccess (flash m q)) \<and>
   (nFailure (flash (do_call crc_24 c m) q) \<longrightarrow> nFailure (flash m q))"
proof (cases c)
  case (Choose a b)
  then show ?thesis
    using choose_latches [of crc_24 a b m q] by (simp add: choose_kept)
next
  case (Boot img)
  then show ?thesis by (simp add: boot_kept)
next
  case (Set_success img)
  then show ?thesis by (simp add: switcher_set_success_def)
next
  case (Set_failure img)
  then show ?thesis by (simp add: switcher_set_failure_def)
qed

section \<open>A freshly flashed image\<close>

text \<open>
  C1. The claim: a freshly flashed header (all four latches set, attempts 15) whose
  checksum is right is found eligible by one run of choose. The code does not do that:
  with \<open>nValid\<close> and \<open>nInvalid\<close> both still set, \<open>_can_boot\<close> returns false at
  \<open>if (image->nInvalid) return false;\<close> before the checksum is looked at. So every
  freshly flashed header is rejected, whatever \<open>crc_24\<close> would say, nothing is written,
  and choose over two such headers returns \<open>NULL\<close>.
\<close>

theorem fresh_header_is_rejected:
  assumes "freshly_flashed (flash m a)" and "freshly_flashed (flash m b)"
  shows "can_boot crc_24 a m = (False, m) \<and> switcher_choose crc_24 a b m = (NULL, m)"
proof -
  have a: "can_boot crc_24 a m = (False, m)"
    using assms(1) by (simp add: freshly_flashed_def can_boot_fresh)
  have b: "can_boot crc_24 b m = (False, m)"
    using assms(2) by (simp add: freshly_flashed_def can_boot_fresh)
  show ?thesis
    by (simp add: a b switcher_choose_def)
qed

text \<open>
  The example: two flashed images of 16 bytes, versions 1 and 2, and a \<open>crc_24\<close> whose
  remainder is 0 over every range, so both stored checksums count as correct.
\<close>

theorem fresh_header_is_rejected_witness:
  "freshly_flashed (flash (two_images (flashed 0 1 16) (flashed 0 2 16)) HEADER_ADDR_A) \<and>
   freshly_flashed (flash (two_images (flashed 0 1 16) (flashed 0 2 16)) HEADER_ADDR_B) \<and>
   crc_const 0 (image_start HEADER_ADDR_A (two_images (flashed 0 1 16) (flashed 0 2 16))) 19 = 0 \<and>
   switcher_choose (crc_const 0) HEADER_ADDR_A HEADER_ADDR_B
       (two_images (flashed 0 1 16) (flashed 0 2 16))
     = (NULL, two_images (flashed 0 1 16) (flashed 0 2 16))"
proof -
  have a: "freshly_flashed (flash (two_images (flashed 0 1 16) (flashed 0 2 16)) HEADER_ADDR_A)"
    by (simp add: freshly_flashed_def two_images_def flashed_def)
  have b: "freshly_flashed (flash (two_images (flashed 0 1 16) (flashed 0 2 16)) HEADER_ADDR_B)"
    by (simp add: freshly_flashed_def two_images_def flashed_def)
  show ?thesis
    using a b fresh_header_is_rejected [OF a b, of "crc_const 0"]
    by (simp add: crc_const_def)
qed

section \<open>The eligibility test while neither success nor failure is latched\<close>

text \<open>
  C2, as stated, says under (a) that a header with \<open>nValid\<close> cleared and \<open>nInvalid\<close>
  still set is ineligible. In the code a cleared \<open>nValid\<close> means "validated": the block
  \<open>if (image->nValid) { ... }\<close> is skipped and the attempts decide. Here such a header
  with attempts 15 is found eligible, with no call of \<open>crc_24\<close> and nothing written.
\<close>

theorem validated_header_counterexample:
  "can_boot (crc_const 0) HEADER_ADDR_A
     (two_images \<lparr>checksum = 0, version = 1, length_f = 16, nValid = False,
        nInvalid = True, nSuccess = True, nFailure = True, nAttempts = 15\<rparr> (flashed 0 2 16))
   = (True,
      two_images \<lparr>checksum = 0, version = 1, length_f = 16, nValid = False,
        nInvalid = True, nSuccess = True, nFailure = True, nAttempts = 15\<rparr> (flashed 0 2 16))"
  by (simp add: can_boot_def two_images_def)

text \<open>
  C2, amended. For every header whose \<open>nFailure\<close> and \<open>nSuccess\<close> latches are both still
  set: (a) if \<open>nValid\<close> is already cleared, \<open>crc_24\<close> is not called, nothing is written
  and eligibility is exactly "attempts is not zero", whatever \<open>nInvalid\<close> is; (b) one
  test calls \<open>crc_24\<close> at most once, and only while \<open>nValid\<close> is still set: when it is
  called and the remainder is not zero, 0 is written to \<open>nInvalid\<close> and the header is
  ineligible, and when the remainder is zero, \<open>nValid\<close> is cleared; (c) after that
  successful check eligibility is exactly "attempts is not zero". The statement says
  nothing about which headers with \<open>nValid\<close> set get their checksum computed.
\<close>

theorem can_boot_while_pending:
  assumes "nFailure (flash m img)" and "nSuccess (flash m img)"
  shows
    "(\<not> nValid (flash m img) \<longrightarrow>
        can_boot crc_24 img m = (nAttempts (flash m img) \<noteq> 0, m)) \<and>
     (crc_log (snd (can_boot crc_24 img m)) = crc_log m \<or>
      nValid (flash m img) \<and>
      (let data = img - ucast (length_f (flash m img));
           data_len = ucast (length_f (flash m img)) + 3;
           logged = crc_log m @ [(data, data_len)]
       in if crc_24 data data_len = 0
          then can_boot crc_24 img m =
                 (nAttempts (flash m img) \<noteq> 0,
                  m\<lparr>flash := (flash m)(img := (flash m img)\<lparr>nValid := False\<rparr>),
                    crc_log := logged\<rparr>)
          else can_boot crc_24 img m =
                 (False,
                  m\<lparr>flash := (flash m)(img := (flash m img)\<lparr>nInvalid := False\<rparr>),
                    crc_log := logged\<rparr>)))"
proof (cases "nValid (flash m img)")
  case False
  with assms show ?thesis
    by (simp add: can_boot_validated)
next
  case True
  show ?thesis
  proof (cases "nInvalid (flash m img)")
    case True
    with assms \<open>nValid (flash m img)\<close> show ?thesis
      by (simp add: can_boot_fresh)
  next
    case False
    with assms \<open>nValid (flash m img)\<close> show ?thesis
      by (simp add: can_boot_def checksum_valid_def image_start_def Let_def)
  qed
qed

text \<open>
  Two examples, both 16 bytes long at \<open>HEADER_ADDR_A\<close>. A header with \<open>nValid\<close> set,
  \<open>nInvalid\<close> cleared and attempts \<open>1000\<close>, with a \<open>crc_24\<close> that returns 0: the checksum
  is computed once, over the 19 bytes from \<open>0x0007FFE8\<close>, \<open>nValid\<close> is cleared and the
  header is eligible. A header with \<open>nValid\<close> cleared and no attempts left: it is
  ineligible, no checksum is computed and nothing is written.
\<close>

theorem can_boot_while_pending_witness:
  "nFailure (flash (two_images ((flashed 0 1 16)\<lparr>nInvalid := False, nAttempts := 8\<rparr>)
                      (flashed 0 2 16)) HEADER_ADDR_A) \<and>
   nSuccess (flash (two_images ((flashed 0 1 16)\<lparr>nInvalid := False, nAttempts := 8\<rparr>)
                      (flashed 0 2 16)) HEADER_ADDR_A) \<and>
   fst (can_boot (crc_const 0) HEADER_ADDR_A
     (two_images ((flashed 0 1 16)\<lparr>nInvalid := False, nAttempts := 8\<rparr>) (flashed 0 2 16))) \<and>
   flash (snd (can_boot (crc_const 0) HEADER_ADDR_A
     (two_images ((flashed 0 1 16)\<lparr>nInvalid := False, nAttempts := 8\<rparr>) (flashed 0 2 16))))
     HEADER_ADDR_A
   = (flashed 0 1 16)\<lparr>nValid := False, nInvalid := False, nAttempts := 8\<rparr> \<and>
   crc_log (snd (can_boot (crc_const 0) HEADER_ADDR_A
     (two_images ((flashed 0 1 16)\<lparr>nInvalid := False, nAttempts := 8\<rparr>) (flashed 0 2 16))))
   = [(0x0007FFE8, 19)] \<and>
   nFailure (flash (two_images ((flashed 0 1 16)\<lparr>nValid := False, nAttempts := 0\<rparr>)
                      (flashed 0 2 16)) HEADER_ADDR_A) \<and>
   nSuccess (flash (two_images ((flashed 0 1 16)\<lparr>nValid := False, nAttempts := 0\<rparr>)
                      (flashed 0 2 16)) HEADER_ADDR_A) \<and>
   \<not> nValid (flash (two_images ((flashed 0 1 16)\<lparr>nValid := False, nAttempts := 0\<rparr>)
                      (flashed 0 2 16)) HEADER_ADDR_A) \<and>
   can_boot (crc_const 0) HEADER_ADDR_A
     (two_images ((flashed 0 1 16)\<lparr>nValid := False, nAttempts := 0\<rparr>) (flashed 0 2 16))
   = (False, two_images ((flashed 0 1 16)\<lparr>nValid := False, nAttempts := 0\<rparr>) (flashed 0 2 16))"
proof -
  let ?h = "(flashed 0 1 16)\<lparr>nInvalid := False, nAttempts := 8\<rparr>"
  let ?m = "two_images ?h (flashed 0 2 16)"
  have h: "flash ?m HEADER_ADDR_A = ?h" and l: "crc_log ?m = []"
    by (simp_all add: two_images_sel)
  have f: "nFailure (flash ?m HEADER_ADDR_A)" and s: "nSuccess (flash ?m HEADER_ADDR_A)"
    by (simp_all add: h flashed_sel)
  have a: "HEADER_ADDR_A - 16 = 0x0007FFE8"
    by (simp add: HEADER_ADDR_A_def)
  have called: "crc_log (snd (can_boot (crc_const 0) HEADER_ADDR_A ?m)) \<noteq> crc_log ?m"
    by (simp add: can_boot_def checksum_valid_def Let_def crc_const_def h l flashed_sel)
  from can_boot_while_pending [OF f s, of "crc_const 0"] called
  have first: "can_boot (crc_const 0) HEADER_ADDR_A ?m =
          (True, ?m\<lparr>flash := (flash ?m)(HEADER_ADDR_A := ?h\<lparr>nValid := False\<rparr>),
                   crc_log := [(0x0007FFE8, 19)]\<rparr>)"
    by (simp add: Let_def crc_const_def h l a flashed_sel)
  let ?h' = "(flashed 0 1 16)\<lparr>nValid := False, nAttempts := 0\<rparr>"
  let ?m' = "two_images ?h' (flashed 0 2 16)"
  have f': "nFailure (flash ?m' HEADER_ADDR_A)" and s': "nSuccess (flash ?m' HEADER_ADDR_A)"
    and v': "\<not> nValid (flash ?m' HEADER_ADDR_A)"
    by (simp_all add: two_images_sel flashed_sel)
  from can_boot_while_pending [OF f' s', of "crc_const 0"] v'
  have second: "can_boot (crc_const 0) HEADER_ADDR_A ?m' = (False, ?m')"
    by (simp add: two_images_sel)
  show ?thesis
    using f s f' s' v' by (simp add: first second)
qed

section \<open>A checksum that fails\<close>

text \<open>
  C3. The claim: the checksum of a header is verified at most once in its lifetime, the
  outcome is recorded by clearing one of \<open>nValid\<close> and \<open>nInvalid\<close>, and a second choose
  in a row computes no checksum. The code computes the checksum only for a header whose
  \<open>nInvalid\<close> is already cleared (with \<open>nValid\<close> still set), and on a failure it writes
  0 to \<open>nInvalid\<close>, the bit that is 0 already. So a failure changes nothing in the
  flash, and every later choose computes the same checksum again. Below, for two such
  headers: each choose returns \<open>NULL\<close>, leaves the flash as it was and calls \<open>crc_24\<close>
  twice, the second choose like the first.
\<close>

theorem failed_check_is_repeated:
  assumes "nFailure (flash m a)" and "nSuccess (flash m a)"
    and "nValid (flash m a)" and "\<not> nInvalid (flash m a)"
    and "crc_24 (a - ucast (length_f (flash m a))) (ucast (length_f (flash m a)) + 3) \<noteq> 0"
    and "nFailure (flash m b)" and "nSuccess (flash m b)"
    and "nValid (flash m b)" and "\<not> nInvalid (flash m b)"
    and "crc_24 (b - ucast (length_f (flash m b))) (ucast (length_f (flash m b)) + 3) \<noteq> 0"
  shows
    "switcher_choose crc_24 a b m =
       (NULL, m\<lparr>crc_log := crc_log m @
          [(a - ucast (length_f (flash m a)), ucast (length_f (flash m a)) + 3),
           (b - ucast (length_f (flash m b)), ucast (length_f (flash m b)) + 3)]\<rparr>) \<and>
     switcher_choose crc_24 a b (snd (switcher_choose crc_24 a b m)) =
       (NULL, m\<lparr>crc_log := crc_log m @
          [(a - ucast (length_f (flash m a)), ucast (length_f (flash m a)) + 3),
           (b - ucast (length_f (flash m b)), ucast (length_f (flash m b)) + 3),
           (a - ucast (length_f (flash m a)), ucast (length_f (flash m a)) + 3),
           (b - ucast (length_f (flash m b)), ucast (length_f (flash m b)) + 3)]\<rparr>)"
proof -
  have once: "switcher_choose crc_24 a b n =
       (NULL, n\<lparr>crc_log := crc_log n @
          [(a - ucast (length_f (flash m a)), ucast (length_f (flash m a)) + 3),
           (b - ucast (length_f (flash m b)), ucast (length_f (flash m b)) + 3)]\<rparr>)"
    if "flash n = flash m" for n
    using assms that
    by (simp add: switcher_choose_def can_boot_check_fails)
  have first: "switcher_choose crc_24 a b m =
       (NULL, m\<lparr>crc_log := crc_log m @
          [(a - ucast (length_f (flash m a)), ucast (length_f (flash m a)) + 3),
           (b - ucast (length_f (flash m b)), ucast (length_f (flash m b)) + 3)]\<rparr>)"
    by (rule once) simp
  show ?thesis
    by (simp add: first once)
qed


text \<open>
  The example: both headers flashed with all bits set but \<open>nInvalid\<close>, images of 16
  bytes, and a \<open>crc_24\<close> with remainder 1. Two calls of choose compute four checksums.
\<close>

theorem failed_check_is_repeated_witness:
  "nValid (flash (two_images ((flashed 0 1 16)\<lparr>nInvalid := False\<rparr>)
                             ((flashed 0 2 16)\<lparr>nInvalid := False\<rparr>)) HEADER_ADDR_A) \<and>
   \<not> nInvalid (flash (two_images ((flashed 0 1 16)\<lparr>nInvalid := False\<rparr>)
                             ((flashed 0 2 16)\<lparr>nInvalid := False\<rparr>)) HEADER_ADDR_A) \<and>
   switcher_choose (crc_const 1) HEADER_ADDR_A HEADER_ADDR_B
     (two_images ((flashed 0 1 16)\<lparr>nInvalid := False\<rparr>) ((flashed 0 2 16)\<lparr>nInvalid := False\<rparr>))
   = (NULL,
      (two_images ((flashed 0 1 16)\<lparr>nInvalid := False\<rparr>) ((flashed 0 2 16)\<lparr>nInvalid := False\<rparr>))
        \<lparr>crc_log := [(0x0007FFE8, 19), (0x000FFFE8, 19)]\<rparr>) \<and>
   switcher_choose (crc_const 1) HEADER_ADDR_A HEADER_ADDR_B
     (snd (switcher_choose (crc_const 1) HEADER_ADDR_A HEADER_ADDR_B
        (two_images ((flashed 0 1 16)\<lparr>nInvalid := False\<rparr>) ((flashed 0 2 16)\<lparr>nInvalid := False\<rparr>))))
   = (NULL,
      (two_images ((flashed 0 1 16)\<lparr>nInvalid := False\<rparr>) ((flashed 0 2 16)\<lparr>nInvalid := False\<rparr>))
        \<lparr>crc_log := [(0x0007FFE8, 19), (0x000FFFE8, 19), (0x0007FFE8, 19), (0x000FFFE8, 19)]\<rparr>)"
proof -
  let ?m = "two_images ((flashed 0 1 16)\<lparr>nInvalid := False\<rparr>) ((flashed 0 2 16)\<lparr>nInvalid := False\<rparr>)"
  have ha: "flash ?m HEADER_ADDR_A = (flashed 0 1 16)\<lparr>nInvalid := False\<rparr>"
    and hb: "flash ?m HEADER_ADDR_B = (flashed 0 2 16)\<lparr>nInvalid := False\<rparr>"
    and l: "crc_log ?m = []"
    by (simp_all add: two_images_def HEADER_ADDR_A_def HEADER_ADDR_B_def)
  have a: "HEADER_ADDR_A - 16 = 0x0007FFE8" and b: "HEADER_ADDR_B - 16 = 0x000FFFE8"
    by (simp_all add: HEADER_ADDR_A_def HEADER_ADDR_B_def)
  have "nFailure (flash ?m HEADER_ADDR_A)" "nSuccess (flash ?m HEADER_ADDR_A)"
    "nValid (flash ?m HEADER_ADDR_A)" "\<not> nInvalid (flash ?m HEADER_ADDR_A)"
    "crc_const 1 (HEADER_ADDR_A - ucast (length_f (flash ?m HEADER_ADDR_A)))
       (ucast (length_f (flash ?m HEADER_ADDR_A)) + 3) \<noteq> 0"
    "nFailure (flash ?m HEADER_ADDR_B)" "nSuccess (flash ?m HEADER_ADDR_B)"
    "nValid (flash ?m HEADER_ADDR_B)" "\<not> nInvalid (flash ?m HEADER_ADDR_B)"
    "crc_const 1 (HEADER_ADDR_B - ucast (length_f (flash ?m HEADER_ADDR_B)))
       (ucast (length_f (flash ?m HEADER_ADDR_B)) + 3) \<noteq> 0"
    by (simp_all add: two_images_def HEADER_ADDR_A_def HEADER_ADDR_B_def flashed_def crc_const_def)
  from this failed_check_is_repeated [OF this]
  show ?thesis
    by (clarsimp simp add: ha hb l a b flashed_sel)
qed

section \<open>Which of two eligible images is chosen\<close>

text \<open>
  C4. choose is deterministic: two runs (with the same \<open>crc_24\<close>) in which the candidate
  at each of the two addresses is in the same state, whatever its \<open>version\<close>, return the
  same header. And when both candidates are eligible, the tie is decided by the
  addresses alone: \<open>a\<close> when \<open>a >= b\<close>, else \<open>b\<close>, so the higher address wins and the first
  argument wins when they are equal.
\<close>

theorem choose_by_address:
  "(same_but_version (flash m a) (flash m' a) \<and> same_but_version (flash m b) (flash m' b) \<longrightarrow>
      fst (switcher_choose crc_24 a b m) = fst (switcher_choose crc_24 a b m')) \<and>
   (fst (can_boot crc_24 a m) \<and> fst (can_boot crc_24 b (snd (can_boot crc_24 a m))) \<longrightarrow>
      fst (switcher_choose crc_24 a b m) = (if b \<le> a then a else b))"
proof -
  have one: "fst (switcher_choose crc_24 a b m) = fst (switcher_choose crc_24 a b m')"
    if sa: "same_but_version (flash m a) (flash m' a)"
      and sb: "same_but_version (flash m b) (flash m' b)"
  proof -
    let ?m1 = "snd (can_boot crc_24 a m)" and ?m1' = "snd (can_boot crc_24 a m')"
    have ra: "fst (can_boot crc_24 a m) = fst (can_boot crc_24 a m')"
      using can_boot_same [OF sa] by simp
    have "same_but_version (flash ?m1 b) (flash ?m1' b)"
    proof (cases "b = a")
      case True
      then show ?thesis using can_boot_same [OF sa] by simp
    next
      case False
      then show ?thesis using sb by (simp add: can_boot_other)
    qed
    then have rb: "fst (can_boot crc_24 b ?m1) = fst (can_boot crc_24 b ?m1')"
      using can_boot_same by blast
    show ?thesis
      by (simp add: choose_result ra rb)
  qed
  have two: "fst (switcher_choose crc_24 a b m) = (if b \<le> a then a else b)"
    if "fst (can_boot crc_24 a m)" and "fst (can_boot crc_24 b (snd (can_boot crc_24 a m)))"
    using that by (simp add: choose_result)
  show ?thesis
    using one two by blast
qed


text \<open>
  The example: both images have latched success, so both are eligible. The header at the
  higher address \<open>HEADER_ADDR_B\<close> is chosen when it has the lower version (1 against 9)
  and when it has the higher one.
\<close>

theorem choose_by_address_witness:
  "same_but_version
     (flash (two_images ((flashed 0 9 16)\<lparr>nSuccess := False\<rparr>) ((flashed 0 1 16)\<lparr>nSuccess := False\<rparr>)) HEADER_ADDR_A)
     (flash (two_images ((flashed 0 1 16)\<lparr>nSuccess := False\<rparr>) ((flashed 0 9 16)\<lparr>nSuccess := False\<rparr>)) HEADER_ADDR_A) \<and>
   same_but_version
     (flash (two_images ((flashed 0 9 16)\<lparr>nSuccess := False\<rparr>) ((flashed 0 1 16)\<lparr>nSuccess := False\<rparr>)) HEADER_ADDR_B)
     (flash (two_images ((flashed 0 1 16)\<lparr>nSuccess := False\<rparr>) ((flashed 0 9 16)\<lparr>nSuccess := False\<rparr>)) HEADER_ADDR_B) \<and>
   fst (can_boot (crc_const 0) HEADER_ADDR_A
     (two_images ((flashed 0 9 16)\<lparr>nSuccess := False\<rparr>) ((flashed 0 1 16)\<lparr>nSuccess := False\<rparr>))) \<and>
   fst (can_boot (crc_const 0) HEADER_ADDR_B (snd (can_boot (crc_const 0) HEADER_ADDR_A
     (two_images ((flashed 0 9 16)\<lparr>nSuccess := False\<rparr>) ((flashed 0 1 16)\<lparr>nSuccess := False\<rparr>))))) \<and>
   fst (switcher_choose (crc_const 0) HEADER_ADDR_A HEADER_ADDR_B
     (two_images ((flashed 0 9 16)\<lparr>nSuccess := False\<rparr>) ((flashed 0 1 16)\<lparr>nSuccess := False\<rparr>)))
     = HEADER_ADDR_B \<and>
   fst (switcher_choose (crc_const 0) HEADER_ADDR_A HEADER_ADDR_B
     (two_images ((flashed 0 1 16)\<lparr>nSuccess := False\<rparr>) ((flashed 0 9 16)\<lparr>nSuccess := False\<rparr>)))
     = HEADER_ADDR_B"
proof -
  let ?m = "two_images ((flashed 0 9 16)\<lparr>nSuccess := False\<rparr>) ((flashed 0 1 16)\<lparr>nSuccess := False\<rparr>)"
  let ?m' = "two_images ((flashed 0 1 16)\<lparr>nSuccess := False\<rparr>) ((flashed 0 9 16)\<lparr>nSuccess := False\<rparr>)"
  have sa: "same_but_version (flash ?m HEADER_ADDR_A) (flash ?m' HEADER_ADDR_A)"
    and sb: "same_but_version (flash ?m HEADER_ADDR_B) (flash ?m' HEADER_ADDR_B)"
    by (simp_all add: same_but_version_def two_images_def flashed_def)
  have ea: "can_boot (crc_const 0) HEADER_ADDR_A ?m = (True, ?m)"
    by (rule can_boot_succeeded) (simp_all add: two_images_def flashed_def)
  have eb: "can_boot (crc_const 0) HEADER_ADDR_B ?m = (True, ?m)"
    by (rule can_boot_succeeded)
      (simp_all add: two_images_def flashed_def HEADER_ADDR_A_def HEADER_ADDR_B_def)
  have le: "\<not> HEADER_ADDR_B \<le> HEADER_ADDR_A"
    by (simp add: HEADER_ADDR_A_def HEADER_ADDR_B_def)
  from choose_by_address [of ?m HEADER_ADDR_A ?m' HEADER_ADDR_B "crc_const 0"]
  show ?thesis
    using sa sb le by (auto simp add: ea eb)
qed

section \<open>Using up the attempts\<close>

text \<open>
  C5. For a header (not at address 0) that has not latched success: each dispatch
  (\<open>switcher_boot\<close>) shifts \<open>nAttempts\<close> left by one bit within its four bits, the top bit
  lost and a 0 entering at the bottom, and leaves \<open>nValid\<close> and \<open>nInvalid\<close> as they
  were. After four dispatches in a row \<open>nAttempts\<close> is 0 with both latches untouched.
  More generally, after any history of calls that holds at least four dispatches of the
  header and never marks it successful, \<open>nAttempts\<close> is 0 and choose, over any two
  candidates, does not return the header.
\<close>

theorem attempts_run_out:
  assumes "img \<noteq> NULL" and "nSuccess (flash m img)"
  shows
    "nAttempts (flash (snd (switcher_boot img m)) img) = push_bit 1 (nAttempts (flash m img)) \<and>
     unat (nAttempts (flash (snd (switcher_boot img m)) img)) =
       (2 * unat (nAttempts (flash m img))) mod 16 \<and>
     nValid (flash (snd (switcher_boot img m)) img) = nValid (flash m img) \<and>
     nInvalid (flash (snd (switcher_boot img m)) img) = nInvalid (flash m img) \<and>
     nAttempts (flash (run crc_24 [Boot img, Boot img, Boot img, Boot img] m) img) = 0 \<and>
     nValid (flash (run crc_24 [Boot img, Boot img, Boot img, Boot img] m) img)
       = nValid (flash m img) \<and>
     nInvalid (flash (run crc_24 [Boot img, Boot img, Boot img, Boot img] m) img)
       = nInvalid (flash m img) \<and>
     (\<forall>cs a b. Set_success img \<notin> set cs \<and> 4 \<le> count_list cs (Boot img) \<longrightarrow>
        nAttempts (flash (run crc_24 cs m) img) = 0 \<and>
        fst (switcher_choose crc_24 a b (run crc_24 cs m)) \<noteq> img)"
proof -
  have one: "nAttempts (flash (snd (switcher_boot img m)) img) = push_bit 1 (nAttempts (flash m img))"
    using assms by (simp add: boot_attempts)
  have "unat (push_bit 1 (nAttempts (flash m img))) = (2 * unat (nAttempts (flash m img))) mod 16"
    by (simp add: unat_word_ariths mult.commute)
  with one have two: "unat (nAttempts (flash (snd (switcher_boot img m)) img)) =
       (2 * unat (nAttempts (flash m img))) mod 16"
    by simp
  have later: "nAttempts (flash (run crc_24 cs m) img) = 0 \<and>
        fst (switcher_choose crc_24 a b (run crc_24 cs m)) \<noteq> img"
    if "Set_success img \<notin> set cs" and "4 \<le> count_list cs (Boot img)" for cs a b
  proof -
    from run_without_success [OF assms(1) that(1) assms(2), of crc_24] that(2)
    have "nSuccess (flash (run crc_24 cs m) img)" and "nAttempts (flash (run crc_24 cs m) img) = 0"
      by simp_all
    then show ?thesis
      using assms(1) by (simp add: choose_not_exhausted)
  qed
  have four: "nAttempts (flash (run crc_24 [Boot img, Boot img, Boot img, Boot img] m) img) = 0"
    using later [of "[Boot img, Boot img, Boot img, Boot img]"] by simp
  show ?thesis
    using one two four later by (simp add: boot_kept)
qed


text \<open>
  The example: a validated image at \<open>HEADER_ADDR_A\<close> with all four attempts left is
  chosen; one dispatch leaves \<open>0b1110\<close>; after four boot cycles (choose, then dispatch)
  it is not chosen any more.
\<close>

theorem attempts_run_out_witness:
  "HEADER_ADDR_A \<noteq> NULL \<and>
   nSuccess (flash (two_images ((flashed 0 1 16)\<lparr>nValid := False\<rparr>) (flashed 0 2 16)) HEADER_ADDR_A) \<and>
   fst (switcher_choose (crc_const 0) HEADER_ADDR_A HEADER_ADDR_B
     (two_images ((flashed 0 1 16)\<lparr>nValid := False\<rparr>) (flashed 0 2 16))) = HEADER_ADDR_A \<and>
   nAttempts (flash (snd (switcher_boot HEADER_ADDR_A
     (two_images ((flashed 0 1 16)\<lparr>nValid := False\<rparr>) (flashed 0 2 16)))) HEADER_ADDR_A) = 14 \<and>
   nAttempts (flash (run (crc_const 0)
       [Boot HEADER_ADDR_A, Boot HEADER_ADDR_A, Boot HEADER_ADDR_A, Boot HEADER_ADDR_A]
       (two_images ((flashed 0 1 16)\<lparr>nValid := False\<rparr>) (flashed 0 2 16))) HEADER_ADDR_A) = 0 \<and>
   fst (switcher_choose (crc_const 0) HEADER_ADDR_A HEADER_ADDR_B
     (run (crc_const 0)
       [Choose HEADER_ADDR_A HEADER_ADDR_B, Boot HEADER_ADDR_A,
        Choose HEADER_ADDR_A HEADER_ADDR_B, Boot HEADER_ADDR_A,
        Choose HEADER_ADDR_A HEADER_ADDR_B, Boot HEADER_ADDR_A,
        Choose HEADER_ADDR_A HEADER_ADDR_B, Boot HEADER_ADDR_A]
       (two_images ((flashed 0 1 16)\<lparr>nValid := False\<rparr>) (flashed 0 2 16)))) \<noteq> HEADER_ADDR_A"
proof -
  let ?m = "two_images ((flashed 0 1 16)\<lparr>nValid := False\<rparr>) (flashed 0 2 16)"
  let ?cs = "[Choose HEADER_ADDR_A HEADER_ADDR_B, Boot HEADER_ADDR_A,
        Choose HEADER_ADDR_A HEADER_ADDR_B, Boot HEADER_ADDR_A,
        Choose HEADER_ADDR_A HEADER_ADDR_B, Boot HEADER_ADDR_A,
        Choose HEADER_ADDR_A HEADER_ADDR_B, Boot HEADER_ADDR_A]"
  have ne: "HEADER_ADDR_A \<noteq> NULL"
    by (simp add: HEADER_ADDR_A_def NULL_def)
  have ha: "flash ?m HEADER_ADDR_A = (flashed 0 1 16)\<lparr>nValid := False\<rparr>"
    and hb: "flash ?m HEADER_ADDR_B = flashed 0 2 16"
    by (simp_all add: two_images_def HEADER_ADDR_A_def HEADER_ADDR_B_def)
  have s: "nSuccess (flash ?m HEADER_ADDR_A)"
    by (simp add: ha flashed_sel)
  have ca: "can_boot (crc_const 0) HEADER_ADDR_A ?m = (True, ?m)"
    by (simp add: can_boot_def ha flashed_sel)
  have cb: "can_boot (crc_const 0) HEADER_ADDR_B ?m = (False, ?m)"
    by (simp add: can_boot_def hb flashed_sel)
  have chosen: "fst (switcher_choose (crc_const 0) HEADER_ADDR_A HEADER_ADDR_B ?m) = HEADER_ADDR_A"
    by (simp add: switcher_choose_def ca cb)
  note t = attempts_run_out [OF ne s, of "crc_const 0"]
  from t have "nAttempts (flash (snd (switcher_boot HEADER_ADDR_A ?m)) HEADER_ADDR_A)
      = push_bit 1 (nAttempts (flash ?m HEADER_ADDR_A))"
    by blast
  then have once: "nAttempts (flash (snd (switcher_boot HEADER_ADDR_A ?m)) HEADER_ADDR_A) = 14"
    by (simp add: ha flashed_sel)
  from t have four: "nAttempts (flash (run (crc_const 0)
       [Boot HEADER_ADDR_A, Boot HEADER_ADDR_A, Boot HEADER_ADDR_A, Boot HEADER_ADDR_A] ?m)
       HEADER_ADDR_A) = 0"
    by blast
  from t have "Set_success HEADER_ADDR_A \<notin> set ?cs \<and> 4 \<le> count_list ?cs (Boot HEADER_ADDR_A) \<longrightarrow>
      fst (switcher_choose (crc_const 0) HEADER_ADDR_A HEADER_ADDR_B (run (crc_const 0) ?cs ?m))
        \<noteq> HEADER_ADDR_A"
    by blast
  then have never: "fst (switcher_choose (crc_const 0) HEADER_ADDR_A HEADER_ADDR_B
      (run (crc_const 0) ?cs ?m)) \<noteq> HEADER_ADDR_A"
    by simp
  show ?thesis
    using ne s chosen once four never by blast
qed

section \<open>An image that has booted successfully\<close>

text \<open>
  C6. A header whose \<open>nSuccess\<close> is cleared and whose \<open>nFailure\<close> is still set is found
  eligible whatever \<open>crc_24\<close> returns and whatever its attempts are: \<open>_can_boot\<close> returns
  true at once, with no call of \<open>crc_24\<close> and nothing written, as the first candidate
  and as the second. So choose returns it unless the other candidate is eligible too and
  wins on its address, and the only checksum computed is the other candidate's.
  Dispatching it writes nothing: its attempts are not shifted.
\<close>

theorem succeeded_image_is_trusted:
  assumes "nFailure (flash m img)" and "\<not> nSuccess (flash m img)"
  shows
    "can_boot crc_24 img m = (True, m) \<and>
     can_boot crc_24 img (snd (can_boot crc_24 a m)) = (True, snd (can_boot crc_24 a m)) \<and>
     switcher_choose crc_24 img b m =
       (if fst (can_boot crc_24 b m) \<and> \<not> b \<le> img then b else img, snd (can_boot crc_24 b m)) \<and>
     switcher_choose crc_24 a img m =
       (if fst (can_boot crc_24 a m) \<and> img \<le> a then a else img, snd (can_boot crc_24 a m)) \<and>
     snd (switcher_boot img m) = m"
proof -
  have first: "can_boot crc_24 img m = (True, m)"
    using assms by (simp add: can_boot_succeeded)
  have "nFailure (flash (snd (can_boot crc_24 a m)) img)"
    and "\<not> nSuccess (flash (snd (can_boot crc_24 a m)) img)"
    using assms by (simp_all add: can_boot_kept)
  then have second: "can_boot crc_24 img (snd (can_boot crc_24 a m)) = (True, snd (can_boot crc_24 a m))"
    by (rule can_boot_succeeded)
  have ab: "switcher_choose crc_24 img b m =
       (if fst (can_boot crc_24 b m) \<and> \<not> b \<le> img then b else img, snd (can_boot crc_24 b m))"
    by (simp add: switcher_choose_def first split: prod.splits)
  have ba: "switcher_choose crc_24 a img m =
       (if fst (can_boot crc_24 a m) \<and> img \<le> a then a else img, snd (can_boot crc_24 a m))"
  proof (cases "can_boot crc_24 a m")
    case (Pair can_boot_a m1)
    with second show ?thesis
      by (simp add: switcher_choose_def)
  qed
  have "snd (switcher_boot img m) = m"
    using assms by (simp add: switcher_boot_def)
  with first second ab ba show ?thesis
    by blast
qed

text \<open>
  The example: an image that has succeeded, with no attempts left, and a \<open>crc_24\<close> with
  remainder 1. It is chosen, and choose and dispatch leave the flash as it was.
\<close>

theorem succeeded_image_is_trusted_witness:
  "nFailure (flash (two_images ((flashed 0 1 16)\<lparr>nSuccess := False, nAttempts := 0\<rparr>)
                      (flashed 0 2 16)) HEADER_ADDR_A) \<and>
   \<not> nSuccess (flash (two_images ((flashed 0 1 16)\<lparr>nSuccess := False, nAttempts := 0\<rparr>)
                      (flashed 0 2 16)) HEADER_ADDR_A) \<and>
   switcher_choose (crc_const 1) HEADER_ADDR_A HEADER_ADDR_B
       (two_images ((flashed 0 1 16)\<lparr>nSuccess := False, nAttempts := 0\<rparr>) (flashed 0 2 16))
     = (HEADER_ADDR_A,
        two_images ((flashed 0 1 16)\<lparr>nSuccess := False, nAttempts := 0\<rparr>) (flashed 0 2 16)) \<and>
   snd (switcher_boot HEADER_ADDR_A
       (two_images ((flashed 0 1 16)\<lparr>nSuccess := False, nAttempts := 0\<rparr>) (flashed 0 2 16)))
     = two_images ((flashed 0 1 16)\<lparr>nSuccess := False, nAttempts := 0\<rparr>) (flashed 0 2 16)"
proof -
  let ?m = "two_images ((flashed 0 1 16)\<lparr>nSuccess := False, nAttempts := 0\<rparr>) (flashed 0 2 16)"
  have f: "nFailure (flash ?m HEADER_ADDR_A)" and s: "\<not> nSuccess (flash ?m HEADER_ADDR_A)"
    by (simp_all add: two_images_sel flashed_sel)
  have b: "can_boot (crc_const 1) HEADER_ADDR_B ?m = (False, ?m)"
    by (rule can_boot_fresh) (simp_all add: two_images_sel flashed_sel)
  from succeeded_image_is_trusted [OF f s, of "crc_const 1" HEADER_ADDR_A HEADER_ADDR_B]
  show ?thesis
    using f s by (simp add: b)
qed

section \<open>No image can be booted\<close>

text \<open>
  C8. If neither candidate is eligible, choose returns \<open>NULL\<close>, an ordinary value, and
  \<open>switcher_boot\<close> given that result returns to its caller with the flash unchanged and
  no transfer of control; \<open>switcher_boot(NULL)\<close> does so in every state.
\<close>

theorem nothing_bootable:
  "(\<not> fst (can_boot crc_24 a m) \<and> \<not> fst (can_boot crc_24 b (snd (can_boot crc_24 a m))) \<longrightarrow>
      fst (switcher_choose crc_24 a b m) = NULL \<and>
      switcher_boot (fst (switcher_choose crc_24 a b m)) (snd (switcher_choose crc_24 a b m))
        = (Returned, snd (switcher_choose crc_24 a b m))) \<and>
   switcher_boot NULL m = (Returned, m)"
  by (simp add: choose_result switcher_boot_def)

text \<open>
  The example: both images are marked failed. choose returns \<open>NULL\<close> and \<open>main\<close> falls
  through to its endless loop with the flash as it was.
\<close>

theorem nothing_bootable_witness:
  "\<not> fst (can_boot (crc_const 0) HEADER_ADDR_A
        (two_images ((flashed 0 1 16)\<lparr>nFailure := False\<rparr>) ((flashed 0 2 16)\<lparr>nFailure := False\<rparr>))) \<and>
   \<not> fst (can_boot (crc_const 0) HEADER_ADDR_B (snd (can_boot (crc_const 0) HEADER_ADDR_A
        (two_images ((flashed 0 1 16)\<lparr>nFailure := False\<rparr>) ((flashed 0 2 16)\<lparr>nFailure := False\<rparr>))))) \<and>
   fst (switcher_choose (crc_const 0) HEADER_ADDR_A HEADER_ADDR_B
        (two_images ((flashed 0 1 16)\<lparr>nFailure := False\<rparr>) ((flashed 0 2 16)\<lparr>nFailure := False\<rparr>)))
     = NULL \<and>
   main (crc_const 0)
        (two_images ((flashed 0 1 16)\<lparr>nFailure := False\<rparr>) ((flashed 0 2 16)\<lparr>nFailure := False\<rparr>))
     = (Returned,
        two_images ((flashed 0 1 16)\<lparr>nFailure := False\<rparr>) ((flashed 0 2 16)\<lparr>nFailure := False\<rparr>))"
proof -
  let ?m = "two_images ((flashed 0 1 16)\<lparr>nFailure := False\<rparr>) ((flashed 0 2 16)\<lparr>nFailure := False\<rparr>)"
  have a: "can_boot (crc_const 0) HEADER_ADDR_A ?m = (False, ?m)"
    by (rule can_boot_failed) (simp add: two_images_sel)
  have b: "can_boot (crc_const 0) HEADER_ADDR_B ?m = (False, ?m)"
    by (rule can_boot_failed) (simp add: two_images_sel)
  have c: "snd (switcher_choose (crc_const 0) HEADER_ADDR_A HEADER_ADDR_B ?m) = ?m"
    by (simp add: switcher_choose_def a b)
  from nothing_bootable [of "crc_const 0" HEADER_ADDR_A ?m HEADER_ADDR_B]
  show ?thesis
    by (simp add: a b c main_def case_prod_beta)
qed

section \<open>The bytes of the checksum and the start address\<close>

text \<open>
  C9. The claim: the checksum runs over the "length + 3" bytes from "header minus
  length", the image is valid exactly when the remainder is 0, and dispatch transfers
  control to that same start address. The code does the first two: the checksum check
  hands \<open>crc_24\<close> the address "header minus length" and the count "length + 3" (a sum
  that does not wrap; the difference is that of the numbers when the length is at most
  the address), the image is valid exactly when the remainder is 0, and that is the
  only call of \<open>crc_24\<close> an eligibility test can make. The code does not do the third:
  for a header other than \<open>NULL\<close>, dispatch computes the same start address but moves it
  into \<open>ip\<close>, the register r12, under the comment "Set the instruction pointer past
  the header". The program counter is not written, control is not transferred to the
  image, and \<open>switcher_boot\<close> ends in \<open>__builtin_unreachable()\<close> with the stack pointer 0
  and the start address in r12.
\<close>

theorem checksum_range_and_start_register:
  "checksum_valid crc_24 img m =
     (crc_24 (img - ucast (length_f (flash m img))) (ucast (length_f (flash m img)) + 3) = 0,
      m\<lparr>crc_log := crc_log m @
          [(img - ucast (length_f (flash m img)), ucast (length_f (flash m img)) + 3)]\<rparr>) \<and>
   unat (ucast (length_f (flash m img)) + 3 :: 32 word) = unat (length_f (flash m img)) + 3 \<and>
   (unat (length_f (flash m img)) \<le> unat img \<longrightarrow>
      unat (img - ucast (length_f (flash m img))) = unat img - unat (length_f (flash m img))) \<and>
   (crc_log (snd (can_boot crc_24 img m)) = crc_log m \<or>
    crc_log (snd (can_boot crc_24 img m)) = crc_log m @
          [(img - ucast (length_f (flash m img)), ucast (length_f (flash m img)) + 3)]) \<and>
   (img \<noteq> NULL \<longrightarrow>
      fst (switcher_boot img m) = Unreachable 0 (img - ucast (length_f (flash m img))) \<and>
      sp (fst (switcher_boot img m)) = 0 \<and>
      r12 (fst (switcher_boot img m)) = image_start img m)"
proof -
  let ?l = "length_f (flash m img)"
  have lt: "unat ?l < 2 ^ 24"
    using unsigned_less [of ?l] by simp
  have "unat ?l < 2 ^ 32"
    using lt by simp
  then have ul: "unat (ucast ?l :: 32 word) = unat ?l"
    by (simp add: unsigned_ucast_eq take_bit_nat_eq_self)
  have len: "unat (ucast ?l + 3 :: 32 word) = unat ?l + 3"
    using lt by (simp add: unat_word_ariths ul)
  have start: "unat (img - ucast ?l) = unat img - unat ?l" if "unat ?l \<le> unat img"
  proof -
    have "ucast ?l \<le> img"
      using that by (simp add: word_le_nat_alt ul)
    then show ?thesis
      by (simp add: unat_sub ul)
  qed
  have log: "crc_log (snd (can_boot crc_24 img m)) = crc_log m \<or>
    crc_log (snd (can_boot crc_24 img m)) = crc_log m @ [(img - ucast ?l, ucast ?l + 3)]"
    by (simp add: can_boot_def checksum_valid_def image_start_def Let_def)
  have boot: "fst (switcher_boot img m) = Unreachable 0 (img - ucast ?l) \<and>
      sp (fst (switcher_boot img m)) = 0 \<and>
      r12 (fst (switcher_boot img m)) = image_start img m" if "img \<noteq> NULL"
    using that by (simp add: switcher_boot_def image_start_def Let_def)
  have cv: "checksum_valid crc_24 img m =
     (crc_24 (img - ucast ?l) (ucast ?l + 3) = 0,
      m\<lparr>crc_log := crc_log m @ [(img - ucast ?l, ucast ?l + 3)]\<rparr>)"
    by (simp add: checksum_valid_def image_start_def Let_def)
  show ?thesis
    using cv len start log boot by blast
qed

text \<open>
  The example: the header at \<open>0x0007FFF8\<close> of an image of 16 bytes. The checksum runs
  over 19 bytes from \<open>0x0007FFE8\<close>, and a dispatch leaves \<open>0x0007FFE8\<close> in r12 and
  0 in the stack pointer, with no branch.
\<close>

theorem checksum_range_and_start_register_witness:
  "unat (length_f (flash (two_images (flashed 0 1 16) (flashed 0 2 16)) HEADER_ADDR_A))
     \<le> unat HEADER_ADDR_A \<and>
   HEADER_ADDR_A \<noteq> NULL \<and>
   checksum_valid (crc_const 0) HEADER_ADDR_A (two_images (flashed 0 1 16) (flashed 0 2 16))
     = (True, (two_images (flashed 0 1 16) (flashed 0 2 16))\<lparr>crc_log := [(0x0007FFE8, 19)]\<rparr>) \<and>
   unat (HEADER_ADDR_A - 16) = 524264 \<and>
   fst (switcher_boot HEADER_ADDR_A (two_images (flashed 0 1 16) (flashed 0 2 16)))
     = Unreachable 0 0x0007FFE8"
proof -
  let ?m = "two_images (flashed 0 1 16) (flashed 0 2 16)"
  have l: "length_f (flash ?m HEADER_ADDR_A) = 16"
    by (simp add: two_images_sel flashed_sel)
  have ua: "unat HEADER_ADDR_A = 524280"
    by (simp add: HEADER_ADDR_A_def)
  have le: "unat (length_f (flash ?m HEADER_ADDR_A)) \<le> unat HEADER_ADDR_A"
    by (simp add: l ua)
  have a: "HEADER_ADDR_A - 16 = 0x0007FFE8"
    by (simp add: HEADER_ADDR_A_def)
  from checksum_range_and_start_register [of "crc_const 0" HEADER_ADDR_A ?m]
  show ?thesis
    using le by (simp add: a example_addresses two_images_sel flashed_sel crc_const_def)
qed

section \<open>What choose and boot leave alone\<close>

text \<open>
  C10. choose changes at most \<open>nValid\<close> and \<open>nInvalid\<close>, and only of its two candidates:
  \<open>checksum\<close>, \<open>version\<close>, \<open>length\<close>, \<open>nSuccess\<close>, \<open>nFailure\<close> and \<open>nAttempts\<close> of every
  header are as before, and a header that is not a candidate is unchanged. boot changes
  at most \<open>nAttempts\<close> of the header it is given: every latch and \<open>checksum\<close>, \<open>version\<close>
  and \<open>length\<close> of every header are as before, and every other header is unchanged.
\<close>

theorem choose_and_boot_frame:
  "checksum (flash (snd (switcher_choose crc_24 a b m)) q) = checksum (flash m q) \<and>
   version (flash (snd (switcher_choose crc_24 a b m)) q) = version (flash m q) \<and>
   length_f (flash (snd (switcher_choose crc_24 a b m)) q) = length_f (flash m q) \<and>
   nSuccess (flash (snd (switcher_choose crc_24 a b m)) q) = nSuccess (flash m q) \<and>
   nFailure (flash (snd (switcher_choose crc_24 a b m)) q) = nFailure (flash m q) \<and>
   nAttempts (flash (snd (switcher_choose crc_24 a b m)) q) = nAttempts (flash m q) \<and>
   (q \<noteq> a \<and> q \<noteq> b \<longrightarrow> flash (snd (switcher_choose crc_24 a b m)) q = flash m q) \<and>
   checksum (flash (snd (switcher_boot img m)) q) = checksum (flash m q) \<and>
   version (flash (snd (switcher_boot img m)) q) = version (flash m q) \<and>
   length_f (flash (snd (switcher_boot img m)) q) = length_f (flash m q) \<and>
   nValid (flash (snd (switcher_boot img m)) q) = nValid (flash m q) \<and>
   nInvalid (flash (snd (switcher_boot img m)) q) = nInvalid (flash m q) \<and>
   nSuccess (flash (snd (switcher_boot img m)) q) = nSuccess (flash m q) \<and>
   nFailure (flash (snd (switcher_boot img m)) q) = nFailure (flash m q) \<and>
   (q \<noteq> img \<longrightarrow> flash (snd (switcher_boot img m)) q = flash m q)"
  by (simp add: choose_kept choose_other boot_kept boot_other)


text \<open>
  The example: choose verifies the image at \<open>HEADER_ADDR_A\<close> and clears its \<open>nValid\<close>,
  nothing else; boot shifts its attempts from 15 to 14, nothing else. The header at
  address 0, not a candidate, and the header at \<open>HEADER_ADDR_B\<close> stay as flashed.
\<close>

theorem choose_and_boot_frame_witness:
  "NULL \<noteq> HEADER_ADDR_A \<and> NULL \<noteq> HEADER_ADDR_B \<and>
   flash (snd (switcher_choose (crc_const 0) HEADER_ADDR_A HEADER_ADDR_B
      (two_images ((flashed 5 1 16)\<lparr>nInvalid := False\<rparr>) (flashed 0 2 16)))) NULL
     = flashed 0 2 16 \<and>
   flash (snd (switcher_choose (crc_const 0) HEADER_ADDR_A HEADER_ADDR_B
      (two_images ((flashed 5 1 16)\<lparr>nInvalid := False\<rparr>) (flashed 0 2 16)))) HEADER_ADDR_A
     = (flashed 5 1 16)\<lparr>nValid := False, nInvalid := False\<rparr> \<and>
   flash (snd (switcher_boot HEADER_ADDR_A
      (two_images ((flashed 5 1 16)\<lparr>nInvalid := False\<rparr>) (flashed 0 2 16)))) HEADER_ADDR_B
     = flashed 0 2 16 \<and>
   flash (snd (switcher_boot HEADER_ADDR_A
      (two_images ((flashed 5 1 16)\<lparr>nInvalid := False\<rparr>) (flashed 0 2 16)))) HEADER_ADDR_A
     = (flashed 5 1 16)\<lparr>nInvalid := False, nAttempts := 14\<rparr>"
proof -
  let ?m = "two_images ((flashed 5 1 16)\<lparr>nInvalid := False\<rparr>) (flashed 0 2 16)"
  note t = choose_and_boot_frame [of "crc_const 0" HEADER_ADDR_A HEADER_ADDR_B ?m _ HEADER_ADDR_A]
  from t [of NULL] have c0: "flash (snd (switcher_choose (crc_const 0) HEADER_ADDR_A HEADER_ADDR_B ?m)) NULL
      = flashed 0 2 16"
    by (simp add: example_addresses two_images_sel)
  from t [of HEADER_ADDR_B] have b1: "flash (snd (switcher_boot HEADER_ADDR_A ?m)) HEADER_ADDR_B
      = flashed 0 2 16"
    by (simp add: example_addresses two_images_sel)
  have ca: "can_boot (crc_const 0) HEADER_ADDR_A ?m =
      (True, ?m\<lparr>flash := (flash ?m)(HEADER_ADDR_A := (flash ?m HEADER_ADDR_A)\<lparr>nValid := False\<rparr>),
               crc_log := crc_log ?m @ [(HEADER_ADDR_A - ucast (length_f (flash ?m HEADER_ADDR_A)),
                  ucast (length_f (flash ?m HEADER_ADDR_A)) + 3)]\<rparr>)"
    using can_boot_check_passes [of ?m HEADER_ADDR_A "crc_const 0"]
    by (simp add: two_images_sel flashed_sel crc_const_def)
  have c1: "flash (snd (switcher_choose (crc_const 0) HEADER_ADDR_A HEADER_ADDR_B ?m)) HEADER_ADDR_A
      = (flashed 5 1 16)\<lparr>nValid := False, nInvalid := False\<rparr>"
    by (simp add: choose_flash can_boot_other example_addresses ca two_images_sel)
  have b2: "flash (snd (switcher_boot HEADER_ADDR_A ?m)) HEADER_ADDR_A
      = (flashed 5 1 16)\<lparr>nInvalid := False, nAttempts := 14\<rparr>"
    by (simp add: switcher_boot_def Let_def example_addresses two_images_sel flashed_sel
        shift_attempts_push_bit)
  show ?thesis
    using c0 c1 b1 b2 by (simp add: example_addresses)
qed

section \<open>Bits are only cleared\<close>

text \<open>
  C7. Take a header that is freshly flashed, any history of calls of the four functions
  (on any headers, in any order) after that, and any one further call. That call does
  not set a latch of the header again, every bit set in its attempts after the call was
  set before it, and the attempts have not grown: \<open>only_clears\<close> holds between the
  header before and after the call. The attempts of such a header are always one of
  \<open>1111\<close>, \<open>1110\<close>, \<open>1100\<close>, \<open>1000\<close>, \<open>0000\<close>, for which the shift only clears bits.
\<close>

theorem writes_only_clear_bits:
  assumes "freshly_flashed (flash m0 img)"
  shows "only_clears (flash (run crc_24 cs m0) img) (flash (do_call crc_24 c (run crc_24 cs m0)) img)"
proof -
  let ?m = "run crc_24 cs m0"
  have "nAttempts (flash m0 img) \<in> {15, 14, 12, 8, 0}"
    using assms by (simp add: freshly_flashed_def)
  then have shape: "nAttempts (flash ?m img) \<in> {15, 14, 12, 8, 0}"
    by (rule run_shape)
  have att: "nAttempts (flash (do_call crc_24 c ?m) img) AND nAttempts (flash ?m img)
        = nAttempts (flash (do_call crc_24 c ?m) img) \<and>
      nAttempts (flash (do_call crc_24 c ?m) img) \<le> nAttempts (flash ?m img)"
    using shift_only_clears [OF shape] by (simp add: do_call_nAttempts)
  show ?thesis
    unfolding only_clears_def
    using att do_call_latches [of crc_24 c ?m img] by blast
qed


text \<open>
  The example: after one boot cycle the attempts are \<open>1110\<close>, and the next dispatch
  makes them \<open>1100\<close>.
\<close>

theorem writes_only_clear_bits_witness:
  "freshly_flashed (flash (two_images (flashed 0 1 16) (flashed 0 2 16)) HEADER_ADDR_A) \<and>
   nAttempts (flash (run (crc_const 0) [Choose HEADER_ADDR_A HEADER_ADDR_B, Boot HEADER_ADDR_A]
      (two_images (flashed 0 1 16) (flashed 0 2 16))) HEADER_ADDR_A) = 14 \<and>
   nAttempts (flash (do_call (crc_const 0) (Boot HEADER_ADDR_A)
      (run (crc_const 0) [Choose HEADER_ADDR_A HEADER_ADDR_B, Boot HEADER_ADDR_A]
        (two_images (flashed 0 1 16) (flashed 0 2 16)))) HEADER_ADDR_A) = 12 \<and>
   only_clears
     (flash (run (crc_const 0) [Choose HEADER_ADDR_A HEADER_ADDR_B, Boot HEADER_ADDR_A]
        (two_images (flashed 0 1 16) (flashed 0 2 16))) HEADER_ADDR_A)
     (flash (do_call (crc_const 0) (Boot HEADER_ADDR_A)
        (run (crc_const 0) [Choose HEADER_ADDR_A HEADER_ADDR_B, Boot HEADER_ADDR_A]
          (two_images (flashed 0 1 16) (flashed 0 2 16)))) HEADER_ADDR_A)"
proof -
  let ?m0 = "two_images (flashed 0 1 16) (flashed 0 2 16)"
  let ?cs = "[Choose HEADER_ADDR_A HEADER_ADDR_B, Boot HEADER_ADDR_A]"
  have fresh: "freshly_flashed (flash ?m0 HEADER_ADDR_A)"
    by (simp add: freshly_flashed_def two_images_sel flashed_sel)
  have s: "nSuccess (flash ?m0 HEADER_ADDR_A)"
    by (simp add: two_images_sel flashed_sel)
  have "Set_success HEADER_ADDR_A \<notin> set ?cs"
    by simp
  from run_without_success [OF example_addresses(3) this s, of "crc_const 0"]
  have s1: "nSuccess (flash (run (crc_const 0) ?cs ?m0) HEADER_ADDR_A)"
    and a1: "nAttempts (flash (run (crc_const 0) ?cs ?m0) HEADER_ADDR_A) = 14"
    by (simp_all add: two_images_sel flashed_sel)
  have a2: "nAttempts (flash (do_call (crc_const 0) (Boot HEADER_ADDR_A)
      (run (crc_const 0) ?cs ?m0)) HEADER_ADDR_A) = 12"
    using s1 a1 by (simp add: boot_attempts example_addresses)
  from writes_only_clear_bits [OF fresh, of "crc_const 0" ?cs "Boot HEADER_ADDR_A"]
  show ?thesis
    using fresh a1 a2 by blast
qed

text \<open>
  The start from a flashed header matters: attempts \<open>0101\<close>, which no history from a
  flashed header reaches, become \<open>1010\<close> by one dispatch.
\<close>

lemma unreachable_attempts_gain_bits:
  "\<not> only_clears
      (flash (two_images ((flashed 0 1 16)\<lparr>nAttempts := 5\<rparr>) (flashed 0 2 16)) HEADER_ADDR_A)
      (flash (snd (switcher_boot HEADER_ADDR_A
         (two_images ((flashed 0 1 16)\<lparr>nAttempts := 5\<rparr>) (flashed 0 2 16)))) HEADER_ADDR_A)"
  by (simp add: only_clears_def boot_attempts boot_kept example_addresses two_images_sel flashed_sel)

end
